theory Spec2Isabelle
  imports Complex_Main
begin

section \<open>Data model\<close>

text \<open>
  The medal graph of the Paris 2024 dashboard. \<open>App.tsx\<close> parses \<open>medals.csv\<close> into
  \<open>Medal\<close> rows and aggregates them into the props of the \<open>MedalGraph\<close> component,
  which filters the links, derives the visible nodes and hands both to a d3 force
  simulation.

  Of the thirteen fields of the interface \<open>Medal\<close> the aggregation reads five; the record
  keeps those. JavaScript strings are modelled as \<open>string\<close>, the counters (which start at
  1 and grow by 1) and the slider value \<open>minCount\<close> as \<open>int\<close>, the simulation quantities as
  \<open>real\<close>, and the radii as a real or \<open>NaN\<close>.

  Names follow the source. A field whose name is taken is renamed: \<open>id\<close> and \<open>type\<close> of a
  node are \<open>node_id\<close> and \<open>node_type\<close>, \<open>event\<close> of a link is \<open>link_event\<close>, the
  fields of a \<open>linkMap\<close> value bear the prefix \<open>entry_\<close>, and \<open>x\<close>, \<open>y\<close>, \<open>vx\<close>,
  \<open>vy\<close> of a simulation node are \<open>node_x\<close>, \<open>node_y\<close>, \<open>node_vx\<close>, \<open>node_vy\<close>.
\<close>

record Medal =
  medal_type :: string
  name :: string
  discipline :: string
  event :: string
  country :: string

datatype node_type = Country | Discipline

text \<open>\<open>interface GraphNode { id; type }\<close>\<close>

record GraphNode =
  node_id :: string
  node_type :: node_type

text \<open>\<open>interface GraphLink { source; target; medal; athlete?; event?; count? }\<close>\<close>

record GraphLink =
  source :: string
  target :: string
  medal :: string
  athlete :: "string option"
  link_event :: "string option"
  count :: "int option"

record Graph =
  nodes :: "GraphNode list"
  links :: "GraphLink list"

text \<open>The value type of \<open>linkMap\<close>: \<open>{ count; athlete: string[]; event: string[]; medal }\<close>.\<close>

record LinkEntry =
  entry_count :: int
  entry_athlete :: "string list"
  entry_event :: "string list"
  entry_medal :: string

section \<open>Graph model builder (\<open>App.tsx\<close>, the \<open>complete\<close> callback of medals.csv)\<close>

text \<open>
  \<open>Array.from(new Set(xs))\<close>: a JavaScript \<open>Set\<close> keeps insertion order and ignores a
  value it already holds.
\<close>

definition set_add :: "'a list \<Rightarrow> 'a \<Rightarrow> 'a list" where
  "set_add s x = (if x \<in> set s then s else s @ [x])"

definition new_Set :: "'a list \<Rightarrow> 'a list" where
  "new_Set xs = foldl set_add [] xs"

text \<open>\<open>const key = `${m.country}|${m.discipline}|${m.medal_type}`\<close>\<close>

definition link_key :: "Medal \<Rightarrow> string" where
  "link_key m = country m @ ''|'' @ discipline m @ ''|'' @ medal_type m"

text \<open>
  The body of \<open>parsed.forEach\<close>. \<open>linkMap\<close> is a plain object used as a dictionary whose
  entries are later read in insertion order by \<open>Object.entries\<close> (no key is an array
  index, since every key holds a \<open>|\<close>), so it is an association list: a new key is
  appended, an existing key is updated in place.
\<close>

fun linkMap_add :: "Medal \<Rightarrow> (string \<times> LinkEntry) list \<Rightarrow> (string \<times> LinkEntry) list" where
  "linkMap_add m [] =
     [(link_key m,
       \<lparr>entry_count = 1, entry_athlete = [name m], entry_event = [event m],
        entry_medal = medal_type m\<rparr>)]"
| "linkMap_add m ((k, v) # rest) =
     (if k = link_key m
      then (k, v\<lparr>entry_count := entry_count v + 1,
                 entry_athlete := entry_athlete v @ [name m],
                 entry_event := entry_event v @ [event m]\<rparr>) # rest
      else (k, v) # linkMap_add m rest)"

definition build_linkMap :: "Medal list \<Rightarrow> (string \<times> LinkEntry) list" where
  "build_linkMap parsed = foldl (\<lambda>lm m. linkMap_add m lm) [] parsed"

text \<open>\<open>key.split("|")\<close>: the pieces between the separators; the empty string gives one
  empty piece.\<close>

fun split_bar :: "string \<Rightarrow> string list" where
  "split_bar [] = [[]]"
| "split_bar (c # cs) =
     (if c = CHR ''|'' then [] # split_bar cs
      else (case split_bar cs of
              [] \<Rightarrow> [[c]]
            | w # ws \<Rightarrow> (c # w) # ws))"

text \<open>\<open>xs.join(", ")\<close>\<close>

fun join_comma :: "string list \<Rightarrow> string" where
  "join_comma [] = []"
| "join_comma [x] = x"
| "join_comma (x # y # ys) = x @ '', '' @ join_comma (y # ys)"

text \<open>
  The callback of \<open>Object.entries(linkMap).map\<close>: the destructuring
  \<open>[source, target, medal] = key.split("|")\<close> takes the first three pieces. Every key
  made by \<open>link_key\<close> has at least three (lemma \<open>length_split_link_key\<close> below), so the
  indices are in range.
\<close>

definition link_of_entry :: "string \<times> LinkEntry \<Rightarrow> GraphLink" where
  "link_of_entry kv =
     (let parts = split_bar (fst kv); v = snd kv in
      \<lparr>source = parts ! 0, target = parts ! 1, medal = parts ! 2,
       athlete = Some (join_comma (entry_athlete v)),
       link_event = Some (join_comma (entry_event v)),
       count = Some (entry_count v)\<rparr>)"

definition build_nodes :: "Medal list \<Rightarrow> GraphNode list" where
  "build_nodes parsed =
     (let countries = new_Set (map country parsed);
          disciplines = new_Set (map discipline parsed) in
      map (\<lambda>c. \<lparr>node_id = c, node_type = Country\<rparr>) countries @
      map (\<lambda>d. \<lparr>node_id = d, node_type = Discipline\<rparr>) disciplines)"

definition build_links :: "Medal list \<Rightarrow> GraphLink list" where
  "build_links parsed = map link_of_entry (build_linkMap parsed)"

text \<open>The value passed to \<open>setGraphData\<close>.\<close>

definition build :: "Medal list \<Rightarrow> Graph" where
  "build parsed = \<lparr>nodes = build_nodes parsed, links = build_links parsed\<rparr>"

text \<open>
  The callback holds no \<open>throw\<close> and calls nothing that raises on a list of rows: as a
  result value its outcome is always the graph. \<open>EmptyInputError\<close> is the error the
  specification names.
\<close>

datatype build_error = EmptyInputError

definition build_result :: "Medal list \<Rightarrow> build_error + Graph" where
  "build_result parsed = Inr (build parsed)"

text \<open>
  What \<open>Layout\<close> renders in the medal-graph panel:
  \<open>graphData.nodes.length > 0 ? <MedalGraph .../> : <div>Loading medal graph...</div>\<close>.
\<close>

datatype panel = MedalGraphPanel "GraphNode list" "GraphLink list" | LoadingMedalGraph

definition medal_panel :: "Graph \<Rightarrow> panel" where
  "medal_panel graphData =
     (if length (nodes graphData) > 0
      then MedalGraphPanel (nodes graphData) (links graphData)
      else LoadingMedalGraph)"

section \<open>Filter pipeline (\<open>MedalGraph\<close>)\<close>

text \<open>The filter state of the component: three selects, the slider and the checkbox.\<close>

record FilterParams =
  selectedCountry :: string
  selectedDiscipline :: string
  selectedMedal :: string
  minCount :: int
  showOnlyConnected :: bool

text \<open>\<open>Math.max(lo, Math.min(hi, n))\<close>\<close>

definition clamp :: "'a::linorder \<Rightarrow> 'a \<Rightarrow> 'a \<Rightarrow> 'a" where
  "clamp n lo hi = max lo (min hi n)"

text \<open>\<open>sel !== "All" ? sel : null\<close>\<close>

definition wanted :: "string \<Rightarrow> string option" where
  "wanted sel = (if sel \<noteq> ''All'' then Some sel else None)"

text \<open>The truthiness test \<open>if (w)\<close> on a \<open>string | null\<close>: \<open>null\<close> and the empty string
  are falsy.\<close>

definition truthy :: "string option \<Rightarrow> bool" where
  "truthy w = (case w of None \<Rightarrow> False | Some s \<Rightarrow> s \<noteq> [])"

text \<open>\<open>l.count ?? 1\<close>\<close>

definition count_or_1 :: "GraphLink \<Rightarrow> int" where
  "count_or_1 l = (case count l of None \<Rightarrow> 1 | Some c \<Rightarrow> c)"

text \<open>The predicate of \<open>links.filter\<close> in \<open>filteredLinks\<close>, in the order of its early
  returns.\<close>

definition keep_link :: "FilterParams \<Rightarrow> GraphLink \<Rightarrow> bool" where
  "keep_link p l =
     (let wantedCountry = wanted (selectedCountry p);
          wantedDiscipline = wanted (selectedDiscipline p);
          wantedMedal = wanted (selectedMedal p);
          src = source l;
          tgt = target l in
      if truthy wantedMedal \<and> Some (medal l) \<noteq> wantedMedal then False
      else if count_or_1 l < minCount p then False
      else if truthy wantedCountry \<and>
              \<not> (Some src = wantedCountry \<or> Some tgt = wantedCountry) then False
      else if truthy wantedDiscipline \<and>
              \<not> (Some src = wantedDiscipline \<or> Some tgt = wantedDiscipline) then False
      else True)"

definition filteredLinks :: "GraphLink list \<Rightarrow> FilterParams \<Rightarrow> GraphLink list" where
  "filteredLinks ls p = filter (keep_link p) ls"

text \<open>\<open>filteredNodeIds\<close>: a \<open>Set\<close> to which the loop adds the source, then the target of
  every filtered link.\<close>

definition filteredNodeIds :: "GraphLink list \<Rightarrow> string list" where
  "filteredNodeIds fl = foldl (\<lambda>s l. set_add (set_add s (source l)) (target l)) [] fl"

definition filteredNodes :: "GraphNode list \<Rightarrow> string list \<Rightarrow> bool \<Rightarrow> GraphNode list" where
  "filteredNodes ns ids soc =
     (if \<not> soc then ns else filter (\<lambda>n. node_id n \<in> set ids) ns)"

text \<open>The visible subgraph: the pair \<open>(filteredNodes, filteredLinks)\<close> that the simulation
  effect receives.\<close>

definition filter_graph :: "Graph \<Rightarrow> FilterParams \<Rightarrow> Graph" where
  "filter_graph g p =
     (let fl = filteredLinks (links g) p in
      \<lparr>nodes = filteredNodes (nodes g) (filteredNodeIds fl) (showOnlyConnected p),
       links = fl\<rparr>)"

text \<open>The effect on \<open>[links]\<close>:
  \<open>maxC = Math.max(1, ...links.map(l => l.count ?? 1)); setMinCount(c => clamp(c, 1, maxC))\<close>.\<close>

definition maxCount :: "GraphLink list \<Rightarrow> int" where
  "maxCount ls = foldl max 1 (map count_or_1 ls)"

definition reclamp_minCount :: "GraphLink list \<Rightarrow> FilterParams \<Rightarrow> FilterParams" where
  "reclamp_minCount ls p = p\<lparr>minCount := clamp (minCount p) 1 (maxCount ls)\<rparr>"

section \<open>Node radii (the simulation effect of \<open>MedalGraph\<close>)\<close>

text \<open>
  \<open>degree\<close> is a plain object used as a dictionary from ids to counters, filled by one
  pass over the filtered links: \<open>degree[l.source] = (degree[l.source] || 0) + 1\<close>, then
  the same for the target. A plain object inherits the properties of \<open>Object.prototype\<close>:
  reading \<open>degree[id]\<close> for an id that is no key of its own but names one of them yields
  the inherited function (for \<open>__proto__\<close>, the prototype object), which is truthy and no
  number. (The keys of \<open>linkMap\<close> above all hold a \<open>|\<close>, so none names such a property.)
\<close>

definition Object_prototype_names :: "string list" where
  "Object_prototype_names =
     [''constructor'', ''__defineGetter__'', ''__defineSetter__'', ''hasOwnProperty'',
      ''__lookupGetter__'', ''__lookupSetter__'', ''isPrototypeOf'', ''propertyIsEnumerable'',
      ''toString'', ''valueOf'', ''__proto__'', ''toLocaleString'']"

text \<open>What a read of \<open>degree\<close> yields: a counter, or a value that is no number (an
  inherited function or object, or the string that \<open>+ 1\<close> makes of one).\<close>

datatype degree_value = Counter nat | Other

text \<open>\<open>degree[i]\<close>; \<open>None\<close> is \<open>undefined\<close>.\<close>

definition degree_get :: "(string \<rightharpoonup> degree_value) \<Rightarrow> string \<Rightarrow> degree_value option" where
  "degree_get degree i =
     (case degree i of
        Some v \<Rightarrow> Some v
      | None \<Rightarrow> if i \<in> set Object_prototype_names then Some Other else None)"

text \<open>\<open>(v || 0) + 1\<close>: \<open>undefined\<close> and 0 are falsy and give 1; a function, an object
  or a string is truthy, and \<open>+ 1\<close> appends to its text.\<close>

definition plus_1 :: "degree_value option \<Rightarrow> degree_value" where
  "plus_1 v =
     (case v of
        None \<Rightarrow> Counter 1
      | Some (Counter n) \<Rightarrow> Counter (n + 1)
      | Some Other \<Rightarrow> Other)"

text \<open>The two assignments of the loop body. (The assignment to \<open>__proto__\<close> of a string
  is ignored by JavaScript; a later read yields the prototype object again, which is
  \<open>Other\<close> just as the stored string would be.)\<close>

definition degree_add :: "(string \<rightharpoonup> degree_value) \<Rightarrow> GraphLink \<Rightarrow> (string \<rightharpoonup> degree_value)" where
  "degree_add degree l =
     (let d1 = degree(source l \<mapsto> plus_1 (degree_get degree (source l))) in
      d1(target l \<mapsto> plus_1 (degree_get d1 (target l))))"

definition degree_map :: "GraphLink list \<Rightarrow> (string \<rightharpoonup> degree_value)" where
  "degree_map fl = foldl degree_add Map.empty fl"

text \<open>A JavaScript number as far as the radii go: a real, or \<open>NaN\<close>. Arithmetic with
  constants, \<open>Math.min\<close> and \<open>Math.max\<close> all give \<open>NaN\<close> on \<open>NaN\<close>.\<close>

datatype js_number = Num real | NaN

definition num_apply :: "(real \<Rightarrow> real) \<Rightarrow> js_number \<Rightarrow> js_number" where
  "num_apply f v = (case v of Num r \<Rightarrow> Num (f r) | NaN \<Rightarrow> NaN)"

text \<open>The number that \<open>(degree[id] || 0)\<close> is in a product: a counter is itself,
  \<open>undefined\<close> gives 0, a value that is no number converts to \<open>NaN\<close>.\<close>

definition degree_or_0 :: "(string \<rightharpoonup> degree_value) \<Rightarrow> string \<Rightarrow> js_number" where
  "degree_or_0 degree i =
     (case degree_get degree i of
        None \<Rightarrow> Num 0
      | Some (Counter n) \<Rightarrow> Num (real n)
      | Some Other \<Rightarrow> NaN)"

text \<open>\<open>clamp(10 + (degree[id] || 0) * 0.8, 12, 24)\<close> and
  \<open>clamp(7 + (degree[id] || 0) * 0.6, 9, 18)\<close>\<close>

definition rCountry :: "(string \<rightharpoonup> degree_value) \<Rightarrow> string \<Rightarrow> js_number" where
  "rCountry degree i = num_apply (\<lambda>k. clamp (10 + k * 0.8) 12 24) (degree_or_0 degree i)"

definition rDiscipline :: "(string \<rightharpoonup> degree_value) \<Rightarrow> string \<Rightarrow> js_number" where
  "rDiscipline degree i = num_apply (\<lambda>k. clamp (7 + k * 0.6) 9 18) (degree_or_0 degree i)"

text \<open>The circle's attribute \<open>r\<close>: the radius of the node.\<close>

definition circle_radius :: "(string \<rightharpoonup> degree_value) \<Rightarrow> GraphNode \<Rightarrow> js_number" where
  "circle_radius degree d =
     (if node_type d = Country then rCountry degree (node_id d)
      else rDiscipline degree (node_id d))"


section \<open>Drag handlers and the solver\<close>

text \<open>
  \<open>type SimNode = GraphNode & d3.SimulationNodeDatum\<close>: the position and velocity that the
  simulation writes (\<open>x?\<close>, \<open>y?\<close>, \<open>vx?\<close>, \<open>vy?\<close>, undefined until seeded) and the pin
  \<open>fx?\<close>, \<open>fy?\<close> (a number, or null). \<open>None\<close> stands for undefined and null alike.
\<close>

record SimNode = GraphNode +
  node_x :: "real option"
  node_y :: "real option"
  node_vx :: "real option"
  node_vy :: "real option"
  fx :: "real option"
  fy :: "real option"

text \<open>
  What the handlers reach of the \<open>simulation\<close> object: its nodes (the handlers get the
  dragged node by reference; here by its index), the energy \<open>alpha\<close>, the target
  \<open>alphaTarget\<close> that the handlers set, and whether its timer runs.
\<close>

record Simulation =
  sim_nodes :: "SimNode list"
  alpha :: real
  alphaTarget :: real
  running :: bool

text \<open>\<open>d.x ?? 0\<close>\<close>

definition or_0 :: "real option \<Rightarrow> real" where
  "or_0 v = (case v of None \<Rightarrow> 0 | Some r \<Rightarrow> r)"

text \<open>
  The handlers call two methods of the simulation: \<open>alphaTarget(t)\<close>, the setter of the
  target, and \<open>restart()\<close>, which starts the timer again. No handler calls the setter of
  the energy itself, \<open>alpha(a)\<close>.
\<close>

definition set_alphaTarget :: "real \<Rightarrow> Simulation \<Rightarrow> Simulation" where
  "set_alphaTarget t s = s\<lparr>alphaTarget := t\<rparr>"

definition restart :: "Simulation \<Rightarrow> Simulation" where
  "restart s = s\<lparr>running := True\<rparr>"

text \<open>
  \<open>.on("start", (event, d) => { if (!event.active) simulation.alphaTarget(0.2).restart();
  d.fx = d.x ?? 0; d.fy = d.y ?? 0; })\<close>. \<open>event.active\<close> counts the other gestures in
  progress.
\<close>

definition drag_start :: "nat \<Rightarrow> nat \<Rightarrow> Simulation \<Rightarrow> Simulation" where
  "drag_start active i s =
     (let s1 = (if active = 0 then restart (set_alphaTarget 0.2 s) else s);
          d = sim_nodes s1 ! i in
      s1\<lparr>sim_nodes := (sim_nodes s1)
             [i := d\<lparr>fx := Some (or_0 (node_x d)), fy := Some (or_0 (node_y d))\<rparr>]\<rparr>)"

text \<open>\<open>.on("drag", (event, d) => { d.fx = event.x; d.fy = event.y; })\<close>\<close>

definition drag_move :: "real \<Rightarrow> real \<Rightarrow> nat \<Rightarrow> Simulation \<Rightarrow> Simulation" where
  "drag_move ex ey i s =
     (let d = sim_nodes s ! i in
      s\<lparr>sim_nodes := (sim_nodes s)[i := d\<lparr>fx := Some ex, fy := Some ey\<rparr>]\<rparr>)"

text \<open>\<open>.on("end", (event, d) => { if (!event.active) simulation.alphaTarget(0);
  d.fx = null; d.fy = null; })\<close>\<close>

definition drag_end :: "nat \<Rightarrow> nat \<Rightarrow> Simulation \<Rightarrow> Simulation" where
  "drag_end active i s =
     (let s1 = (if active = 0 then set_alphaTarget 0 s else s);
          d = sim_nodes s1 ! i in
      s1\<lparr>sim_nodes := (sim_nodes s1)[i := d\<lparr>fx := None, fy := None\<rparr>]\<rparr>)"

text \<open>
  Modelled from the spec: the tick of the layout solver, which belongs to the d3-force
  library and is not among the sources. After section 4.3: the forces of a tick are
  combined into each node's velocity "before velocity/position integration with a fixed
  damping factor"; a node with a pin "ignores all forces for position and is held exactly
  at the pinned coordinate"; the energy "decays geometrically toward zero each tick". The
  value toward which the energy moves is the target that the handlers set through
  \<open>alphaTarget\<close>, zero outside a drag. The forces themselves are a parameter: given the
  new energy and the nodes, they yield for the node at an index its position and velocity
  \<open>(x, y, vx, vy)\<close> after the force pass. The decay rate and the damping factor are
  parameters too.
\<close>

record SolverConfig =
  alphaDecay :: real
  velocityDecay :: real

type_synonym forces = "real \<Rightarrow> SimNode list \<Rightarrow> nat \<Rightarrow> real \<times> real \<times> real \<times> real"

definition integrate :: "real \<Rightarrow> SimNode \<Rightarrow> real \<times> real \<times> real \<times> real \<Rightarrow> SimNode" where
  "integrate vd d k =
     (case k of (px, py, pvx, pvy) \<Rightarrow>
        d\<lparr>node_x := Some (case fx d of None \<Rightarrow> px + pvx * vd | Some f \<Rightarrow> f),
          node_vx := Some (case fx d of None \<Rightarrow> pvx * vd | Some f \<Rightarrow> 0),
          node_y := Some (case fy d of None \<Rightarrow> py + pvy * vd | Some f \<Rightarrow> f),
          node_vy := Some (case fy d of None \<Rightarrow> pvy * vd | Some f \<Rightarrow> 0)\<rparr>)"

definition tick :: "SolverConfig \<Rightarrow> forces \<Rightarrow> Simulation \<Rightarrow> Simulation" where
  "tick cfg F s =
     (let a = alpha s + (alphaTarget s - alpha s) * alphaDecay cfg;
          ns = sim_nodes s in
      s\<lparr>alpha := a,
        sim_nodes := map (\<lambda>i. integrate (velocityDecay cfg) (ns ! i) (F a ns i))
                         [0..<length ns]\<rparr>)"

fun ticks :: "SolverConfig \<Rightarrow> forces \<Rightarrow> nat \<Rightarrow> Simulation \<Rightarrow> Simulation" where
  "ticks cfg F 0 s = s"
| "ticks cfg F (Suc n) s = ticks cfg F n (tick cfg F s)"

section \<open>Vocabulary of the specification\<close>

text \<open>
  The grouping that section 4.1 describes, in its own words, to compare the builder with:
  the (source, target, label) triple of a record and of an edge, the records of a triple,
  and the edge "with weight = group size and attributes = the detail fields of each
  member, in input order".
\<close>

definition record_triple :: "Medal \<Rightarrow> string \<times> string \<times> string" where
  "record_triple r = (country r, discipline r, medal_type r)"

definition link_triple :: "GraphLink \<Rightarrow> string \<times> string \<times> string" where
  "link_triple l = (source l, target l, medal l)"

definition group_of :: "string \<times> string \<times> string \<Rightarrow> Medal list \<Rightarrow> Medal list" where
  "group_of t rs = filter (\<lambda>r. record_triple r = t) rs"

definition group_edge :: "Medal list \<Rightarrow> string \<times> string \<times> string \<Rightarrow> GraphLink" where
  "group_edge rs t =
     \<lparr>source = fst t, target = fst (snd t), medal = snd (snd t),
      athlete = Some (join_comma (map name (group_of t rs))),
      link_event = Some (join_comma (map event (group_of t rs))),
      count = Some (int (length (group_of t rs)))\<rparr>"

definition bar_free :: "string \<Rightarrow> bool" where
  "bar_free s = (CHR ''|'' \<notin> set s)"

definition bar_free_record :: "Medal \<Rightarrow> bool" where
  "bar_free_record r = (bar_free (country r) \<and> bar_free (discipline r) \<and> bar_free (medal_type r))"

text \<open>The records of a key of \<open>linkMap\<close>, and the entry that the loop has built for them.\<close>

definition records_of_key :: "string \<Rightarrow> Medal list \<Rightarrow> Medal list" where
  "records_of_key k rs = filter (\<lambda>r. link_key r = k) rs"

definition entry_of :: "Medal list \<Rightarrow> LinkEntry" where
  "entry_of g =
     \<lparr>entry_count = int (length g), entry_athlete = map name g,
      entry_event = map event g, entry_medal = medal_type (hd g)\<rparr>"

text \<open>The degree of an id in an edge list: the number of edge ends at it.\<close>

definition degree_in :: "GraphLink list \<Rightarrow> string \<Rightarrow> nat" where
  "degree_in fl i =
     length (filter (\<lambda>l. source l = i) fl) + length (filter (\<lambda>l. target l = i) fl)"

text \<open>A node is held at \<open>(px, py)\<close>: it is pinned there and it is there.\<close>

definition held :: "nat \<Rightarrow> real \<Rightarrow> real \<Rightarrow> Simulation \<Rightarrow> bool" where
  "held i px py s =
     (i < length (sim_nodes s) \<and>
      fx (sim_nodes s ! i) = Some px \<and> fy (sim_nodes s ! i) = Some py \<and>
      node_x (sim_nodes s ! i) = Some px \<and> node_y (sim_nodes s ! i) = Some py)"

section \<open>Example data\<close>

text \<open>The example of section 8 of the specification: two wins of A in X, one loss of B
  in X.\<close>

abbreviation example_records :: "Medal list" where
  "example_records \<equiv>
     [\<lparr>medal_type = ''win'', name = ''n1'', discipline = ''X'', event = ''e1'', country = ''A''\<rparr>,
      \<lparr>medal_type = ''win'', name = ''n2'', discipline = ''X'', event = ''e2'', country = ''A''\<rparr>,
      \<lparr>medal_type = ''loss'', name = ''n3'', discipline = ''X'', event = ''e3'', country = ''B''\<rparr>]"

abbreviation example_graph :: Graph where
  "example_graph \<equiv>
     \<lparr>nodes = [\<lparr>node_id = ''A'', node_type = Country\<rparr>,
               \<lparr>node_id = ''B'', node_type = Country\<rparr>,
               \<lparr>node_id = ''X'', node_type = Discipline\<rparr>],
      links = [\<lparr>source = ''A'', target = ''X'', medal = ''win'', athlete = Some ''n1, n2'',
                link_event = Some ''e1, e2'', count = Some 2\<rparr>,
               \<lparr>source = ''B'', target = ''X'', medal = ''loss'', athlete = Some ''n3'',
                link_event = Some ''e3'', count = Some 1\<rparr>]\<rparr>"

abbreviation example_params :: FilterParams where
  "example_params \<equiv>
     \<lparr>selectedCountry = ''All'', selectedDiscipline = ''All'', selectedMedal = ''All'',
      minCount = 2, showOnlyConnected = True\<rparr>"

text \<open>A record whose country holds the separator of the keys.\<close>

abbreviation separator_record :: Medal where
  "separator_record \<equiv>
     \<lparr>medal_type = ''Gold'', name = ''n'', discipline = ''C'', event = ''e'', country = ''A|B''\<rparr>"

text \<open>A record whose country and discipline bear the same name.\<close>

abbreviation same_name_record :: Medal where
  "same_name_record \<equiv>
     \<lparr>medal_type = ''Gold'', name = ''n'', discipline = ''X'', event = ''e'', country = ''X''\<rparr>"


text \<open>A simulation of one free node at \<open>(1, 2)\<close> that has cooled to the energy
  \<open>1/20\<close>; a solver that halves the distance to the target at each tick and damps
  velocities by \<open>3/5\<close>; forces that put every node at \<open>(5, 5)\<close> with velocity
  \<open>(1, 1)\<close>.\<close>

abbreviation example_simulation :: Simulation where
  "example_simulation \<equiv>
     \<lparr>sim_nodes = [\<lparr>node_id = ''A'', node_type = Country, node_x = Some 1, node_y = Some 2,
                    node_vx = Some 0, node_vy = Some 0, fx = None, fy = None\<rparr>],
      alpha = 1 / 20, alphaTarget = 0, running = False\<rparr>"

abbreviation example_config :: SolverConfig where
  "example_config \<equiv> \<lparr>alphaDecay = 1 / 2, velocityDecay = 3 / 5\<rparr>"

abbreviation example_forces :: forces where
  "example_forces \<equiv> (\<lambda>a ns i. (5, 5, 1, 1))"

section \<open>The builder: auxiliary facts\<close>

subsection \<open>Insertion-ordered sets\<close>

lemma set_foldl_set_add: "set (foldl set_add s xs) = set s \<union> set xs"
  by (induction xs arbitrary: s) (auto simp: set_add_def)

lemma distinct_foldl_set_add: "distinct s \<Longrightarrow> distinct (foldl set_add s xs)"
  by (induction xs arbitrary: s) (auto simp: set_add_def)

lemma set_new_Set: "set (new_Set xs) = set xs"
  by (simp add: new_Set_def set_foldl_set_add)

lemma distinct_new_Set: "distinct (new_Set xs)"
  by (simp add: new_Set_def distinct_foldl_set_add)

lemma new_Set_snoc: "new_Set (xs @ [x]) = set_add (new_Set xs) x"
  by (simp add: new_Set_def)

lemma new_Set_Nil_iff: "new_Set xs = [] \<longleftrightarrow> xs = []"
  using set_new_Set [of xs] by (metis set_empty)

lemma foldl_set_add_map:
  "inj_on f (set s \<union> set xs) \<Longrightarrow>
   foldl set_add (map f s) (map f xs) = map f (foldl set_add s xs)"
proof (induction xs arbitrary: s)
  case Nil
  show ?case by simp
next
  case (Cons x xs)
  have mem: "f x \<in> f ` set s \<longleftrightarrow> x \<in> set s"
    using Cons.prems by (auto simp: inj_on_def)
  have step: "set_add (map f s) (f x) = map f (set_add s x)"
    by (simp add: set_add_def mem)
  have inj: "inj_on f (set (set_add s x) \<union> set xs)"
    using Cons.prems by (auto simp: set_add_def inj_on_def)
  show ?case
    by (simp add: step Cons.IH [OF inj])
qed

lemma new_Set_map: "inj_on f (set xs) \<Longrightarrow> new_Set (map f xs) = map f (new_Set xs)"
  using foldl_set_add_map [of f "[]" xs] by (simp add: new_Set_def)

subsection \<open>Splitting a key\<close>

lemma split_bar_not_Nil: "split_bar s \<noteq> []"
  by (induction s) (auto split: list.splits)

lemma split_bar_bar_free: "bar_free a \<Longrightarrow> split_bar a = [a]"
  unfolding bar_free_def by (induction a) (auto split: list.splits)

lemma split_bar_prefix:
  "bar_free a \<Longrightarrow> split_bar (a @ CHR ''|'' # rest) = a # split_bar rest"
  unfolding bar_free_def by (induction a) (auto split: list.splits simp: split_bar_not_Nil)

lemma length_split_bar: "length (split_bar s) = Suc (length (filter (\<lambda>c. c = CHR ''|'') s))"
  by (induction s) (auto split: list.splits simp: split_bar_not_Nil)

lemma length_split_link_key: "3 \<le> length (split_bar (link_key m))"
  by (simp add: link_key_def length_split_bar)

lemma split_link_key_source:
  "bar_free (country m) \<Longrightarrow> split_bar (link_key m) ! 0 = country m"
  by (simp add: link_key_def split_bar_prefix)

lemma split_link_key_target:
  "bar_free (country m) \<Longrightarrow> bar_free (discipline m) \<Longrightarrow>
   split_bar (link_key m) ! 1 = discipline m"
  by (simp add: link_key_def split_bar_prefix)

lemma split_link_key:
  "bar_free_record m \<Longrightarrow> split_bar (link_key m) = [country m, discipline m, medal_type m]"
  by (simp add: bar_free_record_def link_key_def split_bar_prefix split_bar_bar_free)

lemma link_key_inj:
  "bar_free_record m \<Longrightarrow> bar_free_record m' \<Longrightarrow>
   link_key m = link_key m' \<longleftrightarrow> record_triple m = record_triple m'"
proof
  assume b: "bar_free_record m" "bar_free_record m'" and "link_key m = link_key m'"
  then have "split_bar (link_key m) = split_bar (link_key m')" by simp
  with b show "record_triple m = record_triple m'"
    by (simp add: split_link_key record_triple_def)
next
  assume "record_triple m = record_triple m'"
  then show "link_key m = link_key m'"
    by (simp add: record_triple_def link_key_def)
qed

subsection \<open>The dictionary of links\<close>

lemma build_linkMap_snoc: "build_linkMap (rs @ [m]) = linkMap_add m (build_linkMap rs)"
  by (simp add: build_linkMap_def)

lemma linkMap_add_map:
  "distinct ks \<Longrightarrow>
   linkMap_add m (map (\<lambda>k. (k, g k)) ks) =
     (if link_key m \<in> set ks
      then map (\<lambda>k. (k, if k = link_key m
                 then (g k)\<lparr>entry_count := entry_count (g k) + 1,
                         entry_athlete := entry_athlete (g k) @ [name m],
                         entry_event := entry_event (g k) @ [event m]\<rparr>
                 else g k)) ks
      else map (\<lambda>k. (k, g k)) ks @
           [(link_key m, \<lparr>entry_count = 1, entry_athlete = [name m], entry_event = [event m],
              entry_medal = medal_type m\<rparr>)])"
  by (induction ks) auto

lemma entry_of_snoc_same:
  "records_of_key (link_key m) rs \<noteq> [] \<Longrightarrow>
   entry_of (records_of_key (link_key m) (rs @ [m])) =
     (entry_of (records_of_key (link_key m) rs))
       \<lparr>entry_count := entry_count (entry_of (records_of_key (link_key m) rs)) + 1,
        entry_athlete := entry_athlete (entry_of (records_of_key (link_key m) rs)) @ [name m],
        entry_event := entry_event (entry_of (records_of_key (link_key m) rs)) @ [event m]\<rparr>"
  by (simp add: entry_of_def records_of_key_def)

lemma records_of_key_nonempty: "records_of_key k rs \<noteq> [] \<longleftrightarrow> k \<in> link_key ` set rs"
  by (auto simp: records_of_key_def filter_empty_conv)

lemma build_linkMap_closed:
  "build_linkMap rs =
     map (\<lambda>k. (k, entry_of (records_of_key k rs))) (new_Set (map link_key rs))"
proof (induction rs rule: rev_induct)
  case Nil
  show ?case by (simp add: build_linkMap_def new_Set_def)
next
  case (snoc m rs)
  let ?ks = "new_Set (map link_key rs)"
  have d: "distinct ?ks" by (rule distinct_new_Set)
  have s: "set ?ks = link_key ` set rs" by (simp add: set_new_Set)
  show ?case
  proof (cases "link_key m \<in> set ?ks")
    case True
    then have ne: "records_of_key (link_key m) rs \<noteq> []"
      by (simp add: s records_of_key_nonempty)
    have other: "\<And>k. k \<noteq> link_key m \<Longrightarrow> records_of_key k (rs @ [m]) = records_of_key k rs"
      by (auto simp: records_of_key_def)
    from True show ?thesis
      by (simp add: build_linkMap_snoc snoc.IH linkMap_add_map [OF d] new_Set_snoc set_add_def
            entry_of_snoc_same [OF ne] other cong: map_cong)
  next
    case False
    then have e: "records_of_key (link_key m) rs = []"
      using records_of_key_nonempty [of "link_key m" rs] by (simp add: s)
    have other: "\<And>k. k \<in> set ?ks \<Longrightarrow> records_of_key k (rs @ [m]) = records_of_key k rs"
      using False by (auto simp: records_of_key_def)
    have new: "entry_of (records_of_key (link_key m) (rs @ [m])) =
       \<lparr>entry_count = 1, entry_athlete = [name m], entry_event = [event m],
              entry_medal = medal_type m\<rparr>"
      using e by (simp add: entry_of_def records_of_key_def)
    from False show ?thesis
      by (simp add: build_linkMap_snoc snoc.IH linkMap_add_map [OF d] new_Set_snoc set_add_def
            new other cong: map_cong)
  qed
qed

lemma build_links_closed:
  "build_links rs =
     map (\<lambda>k. link_of_entry (k, entry_of (records_of_key k rs))) (new_Set (map link_key rs))"
  by (simp add: build_links_def build_linkMap_closed o_def)

subsection \<open>Records without the separator\<close>

lemma records_of_key_group:
  assumes "\<forall>r \<in> set rs. bar_free_record r" and "m \<in> set rs"
  shows "records_of_key (link_key m) rs = group_of (record_triple m) rs"
  unfolding records_of_key_def group_of_def
  by (rule filter_cong [OF refl]) (use assms in \<open>simp add: link_key_inj\<close>)

lemma link_of_group:
  assumes "\<forall>r \<in> set rs. bar_free_record r" and "m \<in> set rs"
  shows "link_of_entry (link_key m, entry_of (records_of_key (link_key m) rs)) =
         group_edge rs (record_triple m)"
proof -
  have b: "bar_free_record m" using assms by simp
  show ?thesis
    by (simp add: link_of_entry_def Let_def split_link_key [OF b]
          records_of_key_group [OF assms] entry_of_def group_edge_def record_triple_def)
qed

lemma build_links_grouped:
  assumes "\<forall>r \<in> set rs. bar_free_record r"
  shows "build_links rs = map (group_edge rs) (new_Set (map record_triple rs))"
proof -
  define h :: "string \<times> string \<times> string \<Rightarrow> string"
    where "h = (\<lambda>(c, d, m). c @ ''|'' @ d @ ''|'' @ m)"
  have key: "\<And>r. link_key r = h (record_triple r)"
    by (simp add: h_def link_key_def record_triple_def)
  have inj: "inj_on h (set (map record_triple rs))"
    unfolding inj_on_def
  proof (intro ballI impI)
    fix t t'
    assume "t \<in> set (map record_triple rs)" "t' \<in> set (map record_triple rs)" and e: "h t = h t'"
    then obtain r r' where r: "r \<in> set rs" "t = record_triple r"
      and r': "r' \<in> set rs" "t' = record_triple r'"
      by auto
    from e have "link_key r = link_key r'" by (simp add: key r r')
    with assms r r' show "t = t'" by (simp add: link_key_inj)
  qed
  have "map link_key rs = map h (map record_triple rs)"
    by (simp add: key)
  then have ks: "new_Set (map link_key rs) = map h (new_Set (map record_triple rs))"
    by (simp only: new_Set_map [OF inj])
  have edge: "link_of_entry (h t, entry_of (records_of_key (h t) rs)) = group_edge rs t"
    if "t \<in> set (new_Set (map record_triple rs))" for t
  proof -
    from that obtain m where m: "m \<in> set rs" "t = record_triple m"
      by (auto simp: set_new_Set)
    show ?thesis
      using link_of_group [OF assms m(1)] by (simp add: m(2) key)
  qed
  show ?thesis
    by (simp add: build_links_closed ks o_def edge cong: map_cong)
qed

lemma link_triple_group_edge: "link_triple (group_edge rs t) = t"
  by (simp add: link_triple_def group_edge_def)

lemma build_links_triples:
  assumes "\<forall>r \<in> set rs. bar_free_record r"
  shows "map link_triple (build_links rs) = new_Set (map record_triple rs)"
  by (simp add: build_links_grouped [OF assms] o_def link_triple_group_edge)

lemma build_links_endpoints:
  assumes "\<forall>r \<in> set rs. bar_free (country r) \<and> bar_free (discipline r)"
    and "l \<in> set (build_links rs)"
  shows "source l \<in> country ` set rs \<and> target l \<in> discipline ` set rs"
proof -
  from assms(2) obtain m where m: "m \<in> set rs"
    and l: "l = link_of_entry (link_key m, entry_of (records_of_key (link_key m) rs))"
    by (auto simp: build_links_closed set_new_Set)
  from assms(1) m have b: "bar_free (country m)" "bar_free (discipline m)" by auto
  have "source l = country m"
    using split_link_key_source [OF b(1)] by (simp add: l link_of_entry_def Let_def)
  moreover have "target l = discipline m"
    using split_link_key_target [OF b] by (simp add: l link_of_entry_def Let_def)
  ultimately show ?thesis using m by auto
qed

lemma node_ids_build: "node_id ` set (build_nodes rs) = country ` set rs \<union> discipline ` set rs"
  by (auto simp: build_nodes_def Let_def set_new_Set image_Un image_image)

lemma distinct_build_nodes: "distinct (build_nodes rs)"
  by (auto simp: build_nodes_def Let_def distinct_map distinct_new_Set inj_on_def)

lemma distinct_country_ids:
  "distinct (map node_id (filter (\<lambda>n. node_type n = Country) (build_nodes rs)))"
  by (simp add: build_nodes_def Let_def filter_map o_def distinct_new_Set)

lemma distinct_discipline_ids:
  "distinct (map node_id (filter (\<lambda>n. node_type n = Discipline) (build_nodes rs)))"
  by (simp add: build_nodes_def Let_def filter_map o_def distinct_new_Set)

lemma build_nodes_Nil_iff: "build_nodes rs = [] \<longleftrightarrow> rs = []"
  by (simp add: build_nodes_def Let_def new_Set_Nil_iff)

lemma filter_eq_distinct: "distinct xs \<Longrightarrow> x \<in> set xs \<Longrightarrow> filter (\<lambda>u. u = x) xs = [x]"
  by (induction xs) (auto simp: filter_empty_conv)

lemma sum_weights_per_triple:
  assumes "\<forall>r \<in> set rs. bar_free_record r"
  shows "(\<Sum>l \<leftarrow> filter (\<lambda>l. link_triple l = t) (build_links rs). count_or_1 l) =
         int (length (group_of t rs))"
proof -
  let ?ts = "new_Set (map record_triple rs)"
  have d: "distinct ?ts" by (rule distinct_new_Set)
  have f: "filter (\<lambda>l. link_triple l = t) (build_links rs) =
           map (group_edge rs) (filter (\<lambda>u. u = t) ?ts)"
    by (simp add: build_links_grouped [OF assms] filter_map o_def link_triple_group_edge)
  show ?thesis
  proof (cases "t \<in> set ?ts")
    case True
    with d have "filter (\<lambda>u. u = t) ?ts = [t]"
      by (rule filter_eq_distinct)
    then show ?thesis
      by (simp add: f count_or_1_def group_edge_def)
  next
    case False
    then have "filter (\<lambda>u. u = t) ?ts = []"
      by (auto simp: filter_empty_conv)
    moreover from False have "group_of t rs = []"
      by (auto simp: set_new_Set group_of_def filter_empty_conv)
    ultimately show ?thesis by (simp add: f)
  qed
qed

lemma build_links_Nil_iff: "build_links rs = [] \<longleftrightarrow> rs = []"
  by (simp add: build_links_closed new_Set_Nil_iff)

lemmas builder_defs =
  build_def build_nodes_def build_links_def build_linkMap_def new_Set_def set_add_def
  link_key_def link_of_entry_def Let_def

text \<open>The example of section 8 of the specification.\<close>

lemma example_build: "build example_records = example_graph"
  by (simp add: builder_defs)

section \<open>The builder: grouping, failure, well-formedness\<close>

text \<open>
  C1. The builder is to group the records by their (source, target, label) triple and to
  emit one edge per group, of weight the size of the group, so that the weights of the
  edges of a triple sum to the number of its records. It does so for records that are free
  of the separator \<open>|\<close> (lemmas \<open>build_links_grouped\<close> and \<open>sum_weights_per_triple\<close>
  above). It groups by the joined key, though, and reads the endpoints and the label of an
  edge back by splitting the key: for the one record with country \<open>A|B\<close>, discipline
  \<open>C\<close> and medal \<open>Gold\<close> the edge goes from \<open>A\<close> to \<open>B\<close> with label \<open>C\<close>, and no
  edge bears the triple of the record: its weights sum to 0, while one record matches.
\<close>

theorem build_splits_separator_in_field:
  "build [separator_record] =
     \<lparr>nodes = [\<lparr>node_id = ''A|B'', node_type = Country\<rparr>,
               \<lparr>node_id = ''C'', node_type = Discipline\<rparr>],
      links = [\<lparr>source = ''A'', target = ''B'', medal = ''C'', athlete = Some ''n'',
                link_event = Some ''e'', count = Some 1\<rparr>]\<rparr> \<and>
   (\<Sum>l \<leftarrow> filter (\<lambda>l. link_triple l = record_triple separator_record)
                  (links (build [separator_record])). count_or_1 l) = 0 \<and>
   length (group_of (record_triple separator_record) [separator_record]) = 1"
  by (simp add: builder_defs link_triple_def record_triple_def group_of_def)

text \<open>
  C2, as stated, fails: on the empty record sequence the builder does not fail with
  \<open>EmptyInputError\<close>; it returns the graph without nodes and links.
\<close>

theorem build_empty_is_a_graph:
  "build_result [] = Inr \<lparr>nodes = [], links = []\<rparr> \<and> build_result [] \<noteq> Inl EmptyInputError"
  by (simp add: build_result_def builder_defs)

text \<open>
  C2, amended. The builder never fails: it returns a graph for every record sequence. The
  graph has no nodes (and no links) exactly when the sequence is empty, and exactly then
  the caller shows the placeholder "Loading medal graph..." in place of the graph.
\<close>

theorem build_never_fails:
  "build_result rs = Inr (build rs) \<and>
   (nodes (build rs) = [] \<longleftrightarrow> rs = []) \<and>
   (links (build rs) = [] \<longleftrightarrow> rs = []) \<and>
   (medal_panel (build rs) = LoadingMedalGraph \<longleftrightarrow> rs = [])"
  by (simp add: build_result_def build_def medal_panel_def build_nodes_Nil_iff build_links_Nil_iff)

text \<open>Witness of C2: the three example records give the example graph, which is rendered;
  no record gives the placeholder.\<close>

theorem build_never_fails_witness:
  "build_result example_records = Inr example_graph \<and>
   medal_panel (build example_records) =
     MedalGraphPanel (nodes example_graph) (links example_graph) \<and>
   medal_panel (build []) = LoadingMedalGraph"
  using build_never_fails [of example_records] build_never_fails [of "[]"]
  by (simp add: example_build medal_panel_def)

text \<open>
  C3. In a built graph node ids are to be unique and both ends of every edge are to be
  ids of nodes. The builder removes duplicates among the countries and among the
  disciplines, each on its own, and joins the two lists: a name that is both a country
  and a discipline gives two nodes with one id, although every reader of the graph (the
  link force, the degrees, the pruning of nodes) takes a node by its id alone. For the
  one record with country \<open>X\<close> and discipline \<open>X\<close> the ids of the nodes are \<open>X\<close> and
  \<open>X\<close>.
\<close>

theorem node_id_shared_by_partitions:
  "build [same_name_record] =
     \<lparr>nodes = [\<lparr>node_id = ''X'', node_type = Country\<rparr>,
               \<lparr>node_id = ''X'', node_type = Discipline\<rparr>],
      links = [\<lparr>source = ''X'', target = ''X'', medal = ''Gold'', athlete = Some ''n'',
                link_event = Some ''e'', count = Some 1\<rparr>]\<rparr> \<and>
   map node_id (nodes (build [same_name_record])) = [''X'', ''X''] \<and>
   \<not> distinct (map node_id (nodes (build [same_name_record])))"
  by (simp add: builder_defs)

text \<open>
  What the builder does ensure: no node occurs twice, and no id occurs twice among the
  country nodes, nor among the discipline nodes. When no country and no discipline of
  the records holds the separator \<open>|\<close>, the source of every edge is the id of a country
  node and its target the id of a discipline node; with the separator in a name, an edge
  can end at an id that no node bears.
\<close>

lemma build_graph_wellformed:
  "distinct (nodes (build rs)) \<and>
   distinct (map node_id (filter (\<lambda>n. node_type n = Country) (nodes (build rs)))) \<and>
   distinct (map node_id (filter (\<lambda>n. node_type n = Discipline) (nodes (build rs)))) \<and>
   ((\<forall>r \<in> set rs. bar_free (country r) \<and> bar_free (discipline r)) \<longrightarrow>
    (\<forall>l \<in> set (links (build rs)).
       \<lparr>node_id = source l, node_type = Country\<rparr> \<in> set (nodes (build rs)) \<and>
       \<lparr>node_id = target l, node_type = Discipline\<rparr> \<in> set (nodes (build rs))))"
proof -
  have "\<lparr>node_id = source l, node_type = Country\<rparr> \<in> set (build_nodes rs) \<and>
        \<lparr>node_id = target l, node_type = Discipline\<rparr> \<in> set (build_nodes rs)"
    if "\<forall>r \<in> set rs. bar_free (country r) \<and> bar_free (discipline r)"
      and "l \<in> set (build_links rs)" for l
    using build_links_endpoints [OF that] by (auto simp: build_nodes_def Let_def set_new_Set)
  then show ?thesis
    by (simp add: build_def distinct_build_nodes distinct_country_ids distinct_discipline_ids)
qed

lemma edge_end_without_node:
  "source (hd (links (build [separator_record]))) = ''A'' \<and>
   ''A'' \<notin> node_id ` set (nodes (build [separator_record]))"
  by (simp add: builder_defs)

section \<open>The filter: auxiliary facts\<close>

lemma set_filteredNodeIds_gen:
  "set (foldl (\<lambda>s l. set_add (set_add s (source l)) (target l)) s0 fl) =
     set s0 \<union> source ` set fl \<union> target ` set fl"
  by (induction fl arbitrary: s0) (auto simp: set_add_def)

lemma set_filteredNodeIds: "set (filteredNodeIds fl) = source ` set fl \<union> target ` set fl"
  by (simp add: filteredNodeIds_def set_filteredNodeIds_gen)

lemma filteredLinks_idem: "filteredLinks (filteredLinks ls p) p = filteredLinks ls p"
  by (simp add: filteredLinks_def)

lemma degree_in_pos_iff: "0 < degree_in fl i \<longleftrightarrow> i \<in> source ` set fl \<union> target ` set fl"
  by (auto simp: degree_in_def filter_empty_conv Suc_le_eq length_greater_0_conv simp del: length_greater_0_conv)

lemma hide_disconnected:
  "nodes (filter_graph g p) =
     (if showOnlyConnected p
      then filter (\<lambda>n. node_id n \<in> source ` set (links (filter_graph g p)) \<union>
                                  target ` set (links (filter_graph g p))) (nodes g)
      else nodes g)"
  by (simp add: filter_graph_def Let_def filteredNodes_def set_filteredNodeIds)

lemma keep_link_iff:
  "keep_link p l \<longleftrightarrow>
     (truthy (wanted (selectedMedal p)) \<longrightarrow> Some (medal l) = wanted (selectedMedal p)) \<and>
     minCount p \<le> count_or_1 l \<and>
     (truthy (wanted (selectedCountry p)) \<longrightarrow>
        Some (source l) = wanted (selectedCountry p) \<or> Some (target l) = wanted (selectedCountry p)) \<and>
     (truthy (wanted (selectedDiscipline p)) \<longrightarrow>
        Some (source l) = wanted (selectedDiscipline p) \<or> Some (target l) = wanted (selectedDiscipline p))"
  by (auto simp: keep_link_def Let_def)

lemma maxCount_ge_gen: "a \<le> foldl max a xs" for a :: int
proof (induction xs arbitrary: a)
  case Nil
  show ?case by simp
next
  case (Cons x xs)
  have "a \<le> max a x" by simp
  also have "max a x \<le> foldl max (max a x) xs" by (rule Cons.IH)
  finally show ?case by simp
qed

lemma maxCount_ge_1: "1 \<le> maxCount ls"
  by (simp add: maxCount_def maxCount_ge_gen)

lemma foldl_max_Max: "foldl max a xs = Max (insert a (set xs))" for a :: int
proof (induction xs arbitrary: a)
  case Nil
  show ?case by simp
next
  case (Cons x xs)
  have "Max (insert (max a x) (set xs)) = Max (insert a (insert x (set xs)))"
    by (cases "set xs = {}") (simp_all add: max.assoc)
  then show ?case by (simp add: Cons.IH)
qed

lemma maxCount_Max: "maxCount ls = Max (insert 1 (count_or_1 ` set ls))"
  by (simp add: maxCount_def foldl_max_Max)


lemmas filter_defs =
  filter_graph_def filteredLinks_def filteredNodes_def filteredNodeIds_def set_add_def
  keep_link_def wanted_def truthy_def count_or_1_def Let_def

text \<open>The example of section 8: with the least count 2, only the edge of weight 2 and
  its two ends stay.\<close>

lemma example_filter:
  "filter_graph example_graph example_params =
     \<lparr>nodes = [\<lparr>node_id = ''A'', node_type = Country\<rparr>,
               \<lparr>node_id = ''X'', node_type = Discipline\<rparr>],
      links = [\<lparr>source = ''A'', target = ''X'', medal = ''win'', athlete = Some ''n1, n2'',
                link_event = Some ''e1, e2'', count = Some 2\<rparr>]\<rparr>"
  by (simp add: filter_defs)

section \<open>The filter: pruning, idempotence, monotonicity, the slider\<close>

text \<open>
  C4. With "hide unconnected nodes" on, the nodes of the filtered graph are exactly the
  nodes of the graph that a surviving edge touches, in their order, so each of them has
  degree at least 1 among the surviving edges; with it off, they are all the nodes of the
  graph.
\<close>

theorem hide_disconnected_nodes:
  "(showOnlyConnected p \<longrightarrow>
      nodes (filter_graph g p) =
        filter (\<lambda>n. node_id n \<in> source ` set (links (filter_graph g p)) \<union>
                               target ` set (links (filter_graph g p))) (nodes g) \<and>
      (\<forall>n \<in> set (nodes (filter_graph g p)).
         1 \<le> degree_in (links (filter_graph g p)) (node_id n))) \<and>
   (\<not> showOnlyConnected p \<longrightarrow> nodes (filter_graph g p) = nodes g)"
proof -
  have "1 \<le> degree_in (links (filter_graph g p)) (node_id n)"
    if "showOnlyConnected p" "n \<in> set (nodes (filter_graph g p))" for n
  proof -
    from that have "node_id n \<in> source ` set (links (filter_graph g p)) \<union>
                              target ` set (links (filter_graph g p))"
      by (simp add: hide_disconnected)
    then have "0 < degree_in (links (filter_graph g p)) (node_id n)"
      by (simp only: degree_in_pos_iff)
    then show ?thesis by simp
  qed
  then show ?thesis
    by (simp add: hide_disconnected [symmetric]) (simp add: hide_disconnected)
qed

text \<open>Witness of C4: in the example, A and X stay, each of degree 1.\<close>

theorem hide_disconnected_nodes_witness:
  "showOnlyConnected example_params \<and>
   nodes (filter_graph example_graph example_params) =
     [\<lparr>node_id = ''A'', node_type = Country\<rparr>, \<lparr>node_id = ''X'', node_type = Discipline\<rparr>] \<and>
   1 \<le> degree_in (links (filter_graph example_graph example_params)) ''A'' \<and>
   1 \<le> degree_in (links (filter_graph example_graph example_params)) ''X''"
  using hide_disconnected_nodes [of example_params example_graph]
  by (simp add: example_filter)

text \<open>C5. Filtering is idempotent: filtering a filtered graph again, with the same
  parameters, gives the same nodes and the same edges.\<close>

theorem filter_idempotent: "filter_graph (filter_graph g p) p = filter_graph g p"
  by (simp add: filter_graph_def Let_def filteredLinks_idem filteredNodes_def)

text \<open>Witness of C5, on the example.\<close>

theorem filter_idempotent_witness:
  "filter_graph (filter_graph example_graph example_params) example_params =
     \<lparr>nodes = [\<lparr>node_id = ''A'', node_type = Country\<rparr>,
               \<lparr>node_id = ''X'', node_type = Discipline\<rparr>],
      links = [\<lparr>source = ''A'', target = ''X'', medal = ''win'', athlete = Some ''n1, n2'',
                link_event = Some ''e1, e2'', count = Some 2\<rparr>]\<rparr>"
  using filter_idempotent [of example_graph example_params]
  by (simp add: example_filter)

text \<open>
  C6. Raising the least count, all other parameters kept, never adds an edge: the edges
  that survive the higher threshold are those edges surviving the lower one whose count
  reaches it, hence a subset, and no more in number.
\<close>

theorem minCount_antitone:
  assumes "minCount p \<le> m"
  shows "links (filter_graph g (p\<lparr>minCount := m\<rparr>)) =
           filter (\<lambda>l. m \<le> count_or_1 l) (links (filter_graph g p)) \<and>
         set (links (filter_graph g (p\<lparr>minCount := m\<rparr>))) \<subseteq> set (links (filter_graph g p)) \<and>
         length (links (filter_graph g (p\<lparr>minCount := m\<rparr>))) \<le> length (links (filter_graph g p))"
proof -
  have k: "keep_link (p\<lparr>minCount := m\<rparr>) = (\<lambda>l. keep_link p l \<and> m \<le> count_or_1 l)"
    using assms by (intro ext) (auto simp: keep_link_iff)
  have e: "links (filter_graph g (p\<lparr>minCount := m\<rparr>)) =
           filter (\<lambda>l. m \<le> count_or_1 l) (links (filter_graph g p))"
    by (simp add: filter_graph_def Let_def filteredLinks_def k)
  show ?thesis
    unfolding e by simp
qed

text \<open>Witness of C6: in the example, two edges survive the least count 1, one the least
  count 2.\<close>

theorem minCount_antitone_witness:
  "minCount (example_params\<lparr>minCount := 1\<rparr>) \<le> 2 \<and>
   length (links (filter_graph example_graph (example_params\<lparr>minCount := 1\<rparr>))) = 2 \<and>
   length (links (filter_graph example_graph (example_params\<lparr>minCount := 1, minCount := 2\<rparr>))) = 1"
  using minCount_antitone [of "example_params\<lparr>minCount := 1\<rparr>" 2 example_graph]
  by (simp add: filter_defs)

text \<open>
  C10. When the links change, the least count is clamped again into the range from 1 to
  the greatest count of a link, which is at least 1: a value within the range is kept
  (and with it the whole filter state), a value below 1 becomes 1, a value above the
  greatest count becomes the greatest count. So whatever it was, it then lies in the
  range. The other parameters are not touched.
\<close>

theorem minCount_reclamped:
  "minCount (reclamp_minCount ls p) = max 1 (min (maxCount ls) (minCount p)) \<and>
   1 \<le> minCount (reclamp_minCount ls p) \<and>
   minCount (reclamp_minCount ls p) \<le> maxCount ls \<and>
   maxCount ls = Max (insert 1 (count_or_1 ` set ls)) \<and>
   (1 \<le> minCount p \<and> minCount p \<le> maxCount ls \<longrightarrow> reclamp_minCount ls p = p) \<and>
   (minCount p < 1 \<longrightarrow> minCount (reclamp_minCount ls p) = 1) \<and>
   (maxCount ls < minCount p \<longrightarrow> minCount (reclamp_minCount ls p) = maxCount ls) \<and>
   selectedCountry (reclamp_minCount ls p) = selectedCountry p \<and>
   selectedDiscipline (reclamp_minCount ls p) = selectedDiscipline p \<and>
   selectedMedal (reclamp_minCount ls p) = selectedMedal p \<and>
   showOnlyConnected (reclamp_minCount ls p) = showOnlyConnected p"
  using maxCount_ge_1 [of ls]
  by (auto simp: reclamp_minCount_def clamp_def maxCount_Max [symmetric])

text \<open>Witness of C10: with the greatest count 2 of the example, a least count of 7 falls
  to 2, one of 0 rises to 1, and 1 and 2 are kept.\<close>

theorem minCount_reclamped_witness:
  "maxCount (links example_graph) = 2 \<and>
   minCount (reclamp_minCount (links example_graph) (example_params\<lparr>minCount := 7\<rparr>)) = 2 \<and>
   minCount (reclamp_minCount (links example_graph) (example_params\<lparr>minCount := 0\<rparr>)) = 1 \<and>
   minCount (reclamp_minCount (links example_graph) (example_params\<lparr>minCount := 1\<rparr>)) = 1 \<and>
   reclamp_minCount (links example_graph) example_params = example_params"
  using minCount_reclamped [of "links example_graph" "example_params\<lparr>minCount := 7\<rparr>"]
    minCount_reclamped [of "links example_graph" "example_params\<lparr>minCount := 0\<rparr>"]
    minCount_reclamped [of "links example_graph" "example_params\<lparr>minCount := 1\<rparr>"]
    minCount_reclamped [of "links example_graph" example_params]
  by (simp add: maxCount_def count_or_1_def)

section \<open>Node radii\<close>




text \<open>An id that names a property inherited by the dictionary has no numeric degree
  there: its radius is \<open>NaN\<close>.\<close>

lemma degree_add_inherited:
  assumes "i \<in> set Object_prototype_names" and "degree_or_0 d i = NaN"
  shows "degree_or_0 (degree_add d l) i = NaN"
  using assms
  by (auto simp: degree_add_def degree_or_0_def degree_get_def plus_1_def Let_def
      split: option.splits degree_value.splits if_splits)

lemma degree_foldl_inherited:
  assumes "i \<in> set Object_prototype_names"
  shows "degree_or_0 d i = NaN \<Longrightarrow> degree_or_0 (foldl degree_add d fl) i = NaN"
  by (induction fl arbitrary: d) (simp_all add: degree_add_inherited [OF assms])

lemma radius_of_inherited_name:
  assumes "i \<in> set Object_prototype_names"
  shows "rCountry (degree_map fl) i = NaN \<and> rDiscipline (degree_map fl) i = NaN"
proof -
  have "degree_or_0 Map.empty i = NaN"
    using assms by (simp add: degree_or_0_def degree_get_def)
  then have "degree_or_0 (degree_map fl) i = NaN"
    unfolding degree_map_def by (rule degree_foldl_inherited [OF assms])
  then show ?thesis by (simp add: rCountry_def rDiscipline_def num_apply_def)
qed

lemma radius_of_constructor:
  "circle_radius (degree_map
     [\<lparr>source = ''constructor'', target = ''X'', medal = ''G'', athlete = None,
       link_event = None, count = Some 1\<rparr>]) \<lparr>node_id = ''constructor'', node_type = Country\<rparr> = NaN"
  using radius_of_inherited_name [of "''constructor''"]
  by (simp add: circle_radius_def Object_prototype_names_def)



section \<open>The solver: auxiliary facts\<close>

lemma length_tick: "length (sim_nodes (tick cfg F s)) = length (sim_nodes s)"
  by (simp add: tick_def Let_def)

lemma nth_tick:
  "i < length (sim_nodes s) \<Longrightarrow>
   sim_nodes (tick cfg F s) ! i =
     integrate (velocityDecay cfg) (sim_nodes s ! i)
       (F (alpha s + (alphaTarget s - alpha s) * alphaDecay cfg) (sim_nodes s) i)"
  by (simp add: tick_def Let_def)

lemma integrate_pin: "fx (integrate vd d k) = fx d \<and> fy (integrate vd d k) = fy d"
  by (simp add: integrate_def split: prod.splits)

lemma integrate_pinned_x: "fx d = Some px \<Longrightarrow> node_x (integrate vd d k) = Some px"
  by (simp add: integrate_def split: prod.splits)

lemma integrate_pinned_y: "fy d = Some py \<Longrightarrow> node_y (integrate vd d k) = Some py"
  by (simp add: integrate_def split: prod.splits)

lemma integrate_free:
  "fx d = None \<Longrightarrow> fy d = None \<Longrightarrow>
   node_x (integrate vd d (px, py, pvx, pvy)) = Some (px + pvx * vd) \<and>
   node_y (integrate vd d (px, py, pvx, pvy)) = Some (py + pvy * vd)"
  by (simp add: integrate_def)

lemma tick_pins:
  assumes "i < length (sim_nodes s)" "fx (sim_nodes s ! i) = Some px" "fy (sim_nodes s ! i) = Some py"
  shows "held i px py (tick cfg F s)"
  using assms
  by (simp add: held_def length_tick nth_tick integrate_pin integrate_pinned_x integrate_pinned_y)

lemma held_tick: "held i px py s \<Longrightarrow> held i px py (tick cfg F s)"
  by (rule tick_pins) (simp_all add: held_def)

lemma held_ticks: "held i px py s \<Longrightarrow> held i px py (ticks cfg F N s)"
  by (induction N arbitrary: s) (simp_all add: held_tick)

lemma pinned_ticks:
  assumes "i < length (sim_nodes s)" "fx (sim_nodes s ! i) = Some px" "fy (sim_nodes s ! i) = Some py"
    and "0 < N"
  shows "held i px py (ticks cfg F N s)"
proof -
  from \<open>0 < N\<close> obtain n where N: "N = Suc n" by (cases N) auto
  show ?thesis
    unfolding N by (simp add: held_ticks tick_pins [OF assms(1-3)])
qed

lemma drag_start_node:
  "i < length (sim_nodes s) \<Longrightarrow>
   sim_nodes (drag_start act i s) ! i =
     (sim_nodes s ! i)\<lparr>fx := Some (or_0 (node_x (sim_nodes s ! i))),
                       fy := Some (or_0 (node_y (sim_nodes s ! i)))\<rparr> \<and>
   length (sim_nodes (drag_start act i s)) = length (sim_nodes s)"
  by (simp add: drag_start_def Let_def restart_def set_alphaTarget_def)

lemma drag_move_node:
  "i < length (sim_nodes s) \<Longrightarrow>
   sim_nodes (drag_move ex ey i s) ! i = (sim_nodes s ! i)\<lparr>fx := Some ex, fy := Some ey\<rparr> \<and>
   length (sim_nodes (drag_move ex ey i s)) = length (sim_nodes s)"
  by (simp add: drag_move_def Let_def)

lemma drag_end_node:
  "i < length (sim_nodes s) \<Longrightarrow>
   sim_nodes (drag_end act i s) ! i = (sim_nodes s ! i)\<lparr>fx := None, fy := None\<rparr> \<and>
   length (sim_nodes (drag_end act i s)) = length (sim_nodes s)"
  by (simp add: drag_end_def Let_def set_alphaTarget_def)


lemma alpha_tick: "alpha (tick cfg F s) = alpha s + (alphaTarget s - alpha s) * alphaDecay cfg"
  by (simp add: tick_def Let_def)

lemma alphaTarget_tick: "alphaTarget (tick cfg F s) = alphaTarget s"
  by (simp add: tick_def Let_def)

lemma alphaTarget_ticks: "alphaTarget (ticks cfg F N s) = alphaTarget s"
  by (induction N arbitrary: s) (simp_all add: alphaTarget_tick)

lemma alpha_ticks:
  "alpha (ticks cfg F N s) = alphaTarget s + (alpha s - alphaTarget s) * (1 - alphaDecay cfg) ^ N"
proof (induction N arbitrary: s)
  case 0
  show ?case by simp
next
  case (Suc N)
  show ?case
    by (simp add: Suc.IH alpha_tick alphaTarget_tick algebra_simps)
qed

lemma alpha_step:
  "alpha (ticks cfg F (Suc N) s) - alpha (ticks cfg F N s) =
     (alphaTarget s - alpha s) * alphaDecay cfg * (1 - alphaDecay cfg) ^ N"
  unfolding alpha_ticks by (simp add: algebra_simps)

lemma handlers_alpha:
  "alpha (drag_start act i s) = alpha s \<and> alpha (drag_move ex ey i s) = alpha s \<and>
   alpha (drag_end act i s) = alpha s"
  by (simp add: drag_start_def drag_move_def drag_end_def Let_def restart_def set_alphaTarget_def)


section \<open>The solver: pins and energy\<close>

text \<open>
  C8. A node pinned at \<open>(px, py)\<close> is at \<open>(px, py)\<close> after any number of ticks, as long
  as no handler runs: after every positive number of ticks wherever it was before, and
  after any number, zero included, when the pin is the one that the start of a drag sets at
  the node's own position. Moving the pointer moves the pin. The end of a drag sets both
  coordinates of the pin to null; the next tick then puts the node where the forces and
  its damped velocity take it.
\<close>

theorem pin_holds_position:
  assumes "i < length (sim_nodes s)"
  shows
    "(fx (sim_nodes s ! i) = Some px \<and> fy (sim_nodes s ! i) = Some py \<and> 0 < N \<longrightarrow>
        node_x (sim_nodes (ticks cfg F N s) ! i) = Some px \<and>
        node_y (sim_nodes (ticks cfg F N s) ! i) = Some py \<and>
        fx (sim_nodes (ticks cfg F N s) ! i) = Some px \<and>
        fy (sim_nodes (ticks cfg F N s) ! i) = Some py) \<and>
     (node_x (sim_nodes s ! i) = Some a \<and> node_y (sim_nodes s ! i) = Some b \<longrightarrow>
        node_x (sim_nodes (ticks cfg F N (drag_start act i s)) ! i) = Some a \<and>
        node_y (sim_nodes (ticks cfg F N (drag_start act i s)) ! i) = Some b) \<and>
     (0 < N \<longrightarrow>
        node_x (sim_nodes (ticks cfg F N (drag_move ex ey i s)) ! i) = Some ex \<and>
        node_y (sim_nodes (ticks cfg F N (drag_move ex ey i s)) ! i) = Some ey) \<and>
     fx (sim_nodes (drag_end act i s) ! i) = None \<and>
     fy (sim_nodes (drag_end act i s) ! i) = None \<and>
     (F (alpha (tick cfg F (drag_end act i s))) (sim_nodes (drag_end act i s)) i = (qx, qy, qvx, qvy) \<longrightarrow>
        node_x (sim_nodes (tick cfg F (drag_end act i s)) ! i) = Some (qx + qvx * velocityDecay cfg) \<and>
        node_y (sim_nodes (tick cfg F (drag_end act i s)) ! i) = Some (qy + qvy * velocityDecay cfg))"
proof (intro conjI impI)
  assume "fx (sim_nodes s ! i) = Some px \<and> fy (sim_nodes s ! i) = Some py \<and> 0 < N"
  then have h: "held i px py (ticks cfg F N s)"
    using pinned_ticks [OF assms] by simp
  from h show "node_x (sim_nodes (ticks cfg F N s) ! i) = Some px" by (simp add: held_def)
  from h show "node_y (sim_nodes (ticks cfg F N s) ! i) = Some py" by (simp add: held_def)
  from h show "fx (sim_nodes (ticks cfg F N s) ! i) = Some px" by (simp add: held_def)
  from h show "fy (sim_nodes (ticks cfg F N s) ! i) = Some py" by (simp add: held_def)
next
  assume "node_x (sim_nodes s ! i) = Some a \<and> node_y (sim_nodes s ! i) = Some b"
  then have "held i a b (drag_start act i s)"
    using drag_start_node [OF assms, of act] assms by (simp add: held_def or_0_def)
  then have h: "held i a b (ticks cfg F N (drag_start act i s))" by (rule held_ticks)
  from h show "node_x (sim_nodes (ticks cfg F N (drag_start act i s)) ! i) = Some a"
    by (simp add: held_def)
  from h show "node_y (sim_nodes (ticks cfg F N (drag_start act i s)) ! i) = Some b"
    by (simp add: held_def)
next
  assume N: "0 < N"
  have h: "held i ex ey (ticks cfg F N (drag_move ex ey i s))"
    using drag_move_node [OF assms, of ex ey] assms by (intro pinned_ticks N) simp_all
  from h show "node_x (sim_nodes (ticks cfg F N (drag_move ex ey i s)) ! i) = Some ex"
    by (simp add: held_def)
  from h show "node_y (sim_nodes (ticks cfg F N (drag_move ex ey i s)) ! i) = Some ey"
    by (simp add: held_def)
next
  show "fx (sim_nodes (drag_end act i s) ! i) = None" "fy (sim_nodes (drag_end act i s) ! i) = None"
    using drag_end_node [OF assms, of act] by simp_all
next
  assume F: "F (alpha (tick cfg F (drag_end act i s))) (sim_nodes (drag_end act i s)) i = (qx, qy, qvx, qvy)"
  have a: "alpha (tick cfg F (drag_end act i s)) =
     alpha (drag_end act i s) + (alphaTarget (drag_end act i s) - alpha (drag_end act i s)) * alphaDecay cfg"
    by (simp add: tick_def Let_def)
  have l: "i < length (sim_nodes (drag_end act i s))"
    using drag_end_node [OF assms, of act] assms by simp
  have free: "fx (sim_nodes (drag_end act i s) ! i) = None" "fy (sim_nodes (drag_end act i s) ! i) = None"
    using drag_end_node [OF assms, of act] by simp_all
  show "node_x (sim_nodes (tick cfg F (drag_end act i s)) ! i) = Some (qx + qvx * velocityDecay cfg)"
    using F integrate_free [OF free] by (simp add: nth_tick [OF l] a)
  show "node_y (sim_nodes (tick cfg F (drag_end act i s)) ! i) = Some (qy + qvy * velocityDecay cfg)"
    using F integrate_free [OF free] by (simp add: nth_tick [OF l] a)
qed

text \<open>Witness of C8: the node at \<open>(1, 2)\<close> stays there over two ticks of a drag, follows
  the pin to \<open>(7, 8)\<close>, and once released goes to \<open>5 + 1 * 3/5\<close>.\<close>

theorem pin_holds_position_witness:
  "0 < length (sim_nodes example_simulation) \<and>
   node_x (sim_nodes (ticks example_config example_forces 2
       (drag_start 0 0 example_simulation)) ! 0) = Some 1 \<and>
   node_y (sim_nodes (ticks example_config example_forces 2
       (drag_start 0 0 example_simulation)) ! 0) = Some 2 \<and>
   node_x (sim_nodes (ticks example_config example_forces 2
       (drag_move 7 8 0 example_simulation)) ! 0) = Some 7 \<and>
   fx (sim_nodes (drag_end 0 0 (drag_start 0 0 example_simulation)) ! 0) = None \<and>
   node_x (sim_nodes (tick example_config example_forces
       (drag_end 0 0 example_simulation)) ! 0) = Some (28 / 5)"
  using pin_holds_position [where i = 0 and s = example_simulation and cfg = example_config
      and F = example_forces and N = 2 and a = 1 and b = 2 and act = 0 and ex = 7 and ey = 8
      and qx = 5 and qy = 5 and qvx = 1 and qvy = 1]
    pin_holds_position [where i = 0 and s = "drag_start 0 0 example_simulation" and act = 0]
  by (simp add: drag_start_def restart_def set_alphaTarget_def Let_def)

text \<open>
  C9, as stated, fails: the start of a drag neither raises the energy nor sets it to a
  fixed value. It leaves the energy as it is (here \<open>1/20\<close>) and sets its target.
\<close>

theorem drag_start_keeps_energy:
  "alpha (drag_start 0 0 example_simulation) = 1 / 20 \<and>
   alpha example_simulation = 1 / 20 \<and>
   \<not> alpha example_simulation < alpha (drag_start 0 0 example_simulation) \<and>
   alpha (drag_start 0 0 example_simulation) \<noteq> 1 / 5"
  by (simp add: drag_start_def restart_def set_alphaTarget_def Let_def)

text \<open>
  C9, amended. At each tick the energy moves toward its target by the fixed fraction
  \<open>alphaDecay\<close> of the distance, so after \<open>N\<close> ticks the distance is the initial one
  times \<open>(1 - alphaDecay) ^ N\<close>. With the target 0 (no drag in progress) a non-negative
  energy never grows and stays non-negative: it decays geometrically toward zero. The
  start of a drag (no other gesture active) leaves the energy unchanged, sets the target
  to 0.2 and restarts the timer: from then on the energy rises at each tick if it was
  below 0.2 and falls if it was above. The end of the drag leaves the energy unchanged
  and sets the target back to 0, so the energy decays from where it stands.
\<close>

theorem energy_follows_target:
  assumes "0 < alphaDecay cfg" "alphaDecay cfg < 1"
  shows
    "alpha (ticks cfg F N s) =
       alphaTarget s + (alpha s - alphaTarget s) * (1 - alphaDecay cfg) ^ N \<and>
     (alphaTarget s = 0 \<and> 0 \<le> alpha s \<longrightarrow>
        alpha (ticks cfg F (Suc N) s) \<le> alpha (ticks cfg F N s) \<and>
        0 \<le> alpha (ticks cfg F N s)) \<and>
     (alpha s < alphaTarget s \<longrightarrow> alpha (ticks cfg F N s) < alpha (ticks cfg F (Suc N) s)) \<and>
     (alphaTarget s < alpha s \<longrightarrow> alpha (ticks cfg F (Suc N) s) < alpha (ticks cfg F N s)) \<and>
     alpha (drag_start act i s) = alpha s \<and>
     alphaTarget (drag_start 0 i s) = 0.2 \<and>
     running (drag_start 0 i s) \<and>
     alpha (drag_end act i s) = alpha s \<and>
     alphaTarget (drag_end 0 i s) = 0"
proof -
  have p: "0 < alphaDecay cfg * (1 - alphaDecay cfg) ^ N"
    using assms by simp
  have up: "alpha (ticks cfg F N s) < alpha (ticks cfg F (Suc N) s)" if "alpha s < alphaTarget s"
  proof -
    from that p have "0 < (alphaTarget s - alpha s) * (alphaDecay cfg * (1 - alphaDecay cfg) ^ N)"
      by (simp add: zero_less_mult_iff)
    then show ?thesis using alpha_step [of cfg F N s] by (simp add: mult.assoc)
  qed
  have down: "alpha (ticks cfg F (Suc N) s) < alpha (ticks cfg F N s)" if "alphaTarget s < alpha s"
  proof -
    from that p have "(alphaTarget s - alpha s) * (alphaDecay cfg * (1 - alphaDecay cfg) ^ N) < 0"
      by (simp add: mult_less_0_iff)
    then show ?thesis using alpha_step [of cfg F N s] by (simp add: mult.assoc)
  qed
  have decay: "alpha (ticks cfg F (Suc N) s) \<le> alpha (ticks cfg F N s) \<and> 0 \<le> alpha (ticks cfg F N s)"
    if "alphaTarget s = 0 \<and> 0 \<le> alpha s"
  proof -
    from that p have "(alphaTarget s - alpha s) * (alphaDecay cfg * (1 - alphaDecay cfg) ^ N) \<le> 0"
      by (simp add: mult_le_0_iff)
    then have "alpha (ticks cfg F (Suc N) s) \<le> alpha (ticks cfg F N s)"
      using alpha_step [of cfg F N s] by (simp add: mult.assoc)
    moreover have "0 \<le> alpha (ticks cfg F N s)"
      using that assms by (simp add: alpha_ticks)
    ultimately show ?thesis by simp
  qed
  have h: "alphaTarget (drag_start 0 i s) = 0.2 \<and> running (drag_start 0 i s) \<and>
           alphaTarget (drag_end 0 i s) = 0"
    by (simp add: drag_start_def drag_end_def Let_def restart_def set_alphaTarget_def)
  show ?thesis
    using up down decay h handlers_alpha [of act i s] alpha_ticks [of cfg F N s] by blast
qed

text \<open>Witness of C9: from \<open>1/20\<close> the energy halves twice without a drag; in a drag it
  climbs to \<open>13/80\<close> in two ticks; the tick after the release halves it.\<close>

theorem energy_follows_target_witness:
  "(0 :: real) < alphaDecay example_config \<and> alphaDecay example_config < 1 \<and>
   alpha (ticks example_config example_forces 2 example_simulation) = 1 / 80 \<and>
   alpha (ticks example_config example_forces 2 (drag_start 0 0 example_simulation)) = 13 / 80 \<and>
   alpha (ticks example_config example_forces 1
     (drag_end 0 0 (ticks example_config example_forces 2 (drag_start 0 0 example_simulation)))) = 13 / 160"
  using energy_follows_target [where cfg = example_config and F = example_forces and N = 2
      and s = example_simulation and act = 0 and i = 0]
    energy_follows_target [where cfg = example_config and F = example_forces and N = 2
      and s = "drag_start 0 0 example_simulation" and act = 0 and i = 0]
    energy_follows_target [where cfg = example_config and F = example_forces and N = 1
      and s = "drag_end 0 0 (ticks example_config example_forces 2 (drag_start 0 0 example_simulation))" and act = 0 and i = 0]
  by (simp add: power2_eq_square drag_start_def drag_end_def restart_def set_alphaTarget_def Let_def)

end
